theory Spec2Isabelle
  imports Main "HOL-Library.AList"
begin

section \<open>Data model of services/notifications/websocket\_manager.py\<close>

text \<open>
  Python dictionaries keep insertion order, so every dictionary is an association list
  read with \<open>map_of\<close> and written with \<open>AList.update\<close> (replace in place, or append)
  and \<open>AList.delete\<close>. A Python set of strings is a duplicate-free list; the order in
  which Python iterates a set is not fixed by the language, and no theorem below depends
  on it. A \<open>WebSocket\<close> object is a natural number naming the transport handle.
\<close>

datatype ConnectionType = USER | SCAN | DASHBOARD | ADMIN

datatype NotificationType =
    CONNECTED | DISCONNECTED | ERROR | PING | PONG
  | SCAN_STARTED | SCAN_PROGRESS | SCAN_COMPLETED | SCAN_FAILED
  | THREAT_DETECTED | THREAT_MITIGATED
  | USER_JOINED | USER_LEFT
  | SYSTEM_ALERT | MAINTENANCE_NOTICE

text \<open>
  \<open>Notification\<close>: the kind and the payload. The timestamp and the message id are
  filled in by default factories (clock, uuid4) and are left out.
\<close>

record Notification =
  n_type :: NotificationType
  n_data :: "(string \<times> string) list"

record WebSocketClient =
  websocket :: nat
  client_id :: string
  user_id :: "string option"
  connection_type :: "ConnectionType option"
  scan_id :: "string option"
  groups :: "string list"

type_synonym index = "(string \<times> string list) list"

text \<open>
  \<open>WebSocketManager\<close>: the four dictionaries of \<open>__init__\<close>. The values of
  \<open>active_connections\<close> are references to \<open>WebSocketClient\<close> objects; \<open>heap\<close> is the
  store those references point into (position \<open>r\<close> holds the object with reference \<open>r\<close>),
  because the route handler keeps its own reference to the object \<open>connect\<close> returned and
  mutates its \<open>groups\<close> in place.
\<close>

record WebSocketManager =
  heap :: "WebSocketClient list"
  active_connections :: "(string \<times> nat) list"
  user_connections :: index
  scan_connections :: index
  group_connections :: index

definition fresh :: WebSocketManager where
  "fresh = \<lparr>heap = [], active_connections = [], user_connections = [],
            scan_connections = [], group_connections = []\<rparr>"

text \<open>The transport: which handshakes and which writes succeed. Both are inputs.\<close>

record transport =
  accepts :: "nat \<Rightarrow> bool"
  writes :: "nat \<Rightarrow> bool"

datatype error = TransportError | HTTPError

text \<open>One call of \<open>websocket.send_json\<close>: the handle, the frame, and whether it was written.\<close>

record attempt =
  target :: nat
  payload :: Notification
  delivered :: bool

subsection \<open>Python idioms\<close>

text \<open>\<open>if user_id:\<close> on an \<open>Optional[str]\<close>: \<open>None\<close> and the empty string are false.\<close>

definition truthy :: "string option \<Rightarrow> bool" where
  "truthy v = (case v of None \<Rightarrow> False | Some s \<Rightarrow> s \<noteq> [])"

text \<open>\<open>s.add(x)\<close>, \<open>s.discard(x)\<close> and \<open>set(xs or [])\<close>.\<close>

definition set_add :: "string \<Rightarrow> string list \<Rightarrow> string list" where
  "set_add x S = (if x \<in> set S then S else S @ [x])"

definition set_discard :: "string \<Rightarrow> string list \<Rightarrow> string list" where
  "set_discard x S = removeAll x S"

definition set_of_list :: "string list option \<Rightarrow> string list" where
  "set_of_list gs = (case gs of None \<Rightarrow> [] | Some xs \<Rightarrow> remdups xs)"

text \<open>
  \<open>if k not in d: d[k] = set()\<close> followed by \<open>d[k].add(cid)\<close>
  (websocket\_manager.py 165-167, 171-173, 177-179; routes/websocket.py 150-152).
\<close>

definition index_add :: "string \<Rightarrow> string \<Rightarrow> index \<Rightarrow> index" where
  "index_add k cid d =
     (let d1 = (if map_of d k = None then AList.update k [] d else d)
      in case map_of d1 k of
           None \<Rightarrow> d1
         | Some S \<Rightarrow> AList.update k (set_add cid S) d1)"

text \<open>
  \<open>if k in d: d[k].discard(cid); if not d[k]: del d[k]\<close>
  (websocket\_manager.py 224-227, 230-233, 237-240; routes/websocket.py 171-174).
\<close>

definition index_discard :: "string \<Rightarrow> string \<Rightarrow> index \<Rightarrow> index" where
  "index_discard k cid d =
     (case map_of d k of
        None \<Rightarrow> d
      | Some S \<Rightarrow>
          (let S' = set_discard cid S
           in if S' = [] then AList.delete k d else AList.update k S' d))"

text \<open>\<open>d.get(k, set())\<close> as a set, for stating properties.\<close>

definition members :: "index \<Rightarrow> string \<Rightarrow> string set" where
  "members d k = (case map_of d k of None \<Rightarrow> {} | Some S \<Rightarrow> set S)"

subsection \<open>connect and disconnect\<close>

text \<open>
  The block under the lock in \<open>connect\<close> (lines 150-179): build the client object, store
  it under \<open>client_id\<close>, and add the id to the indexes its attributes imply.
\<close>

definition new_client ::
  "nat \<Rightarrow> string \<Rightarrow> string option \<Rightarrow> ConnectionType option \<Rightarrow> string option
     \<Rightarrow> string list option \<Rightarrow> WebSocketClient" where
  "new_client ws cid uid ct sid gs =
     \<lparr>websocket = ws, client_id = cid, user_id = uid, connection_type = ct,
      scan_id = sid, groups = set_of_list gs\<rparr>"

definition register ::
  "nat \<Rightarrow> string \<Rightarrow> string option \<Rightarrow> ConnectionType option \<Rightarrow> string option
     \<Rightarrow> string list option \<Rightarrow> WebSocketManager \<Rightarrow> WebSocketManager" where
  "register ws cid uid ct sid gs s =
     (let client = new_client ws cid uid ct sid gs;
          r = length (heap s)
      in \<lparr>heap = heap s @ [client],
          active_connections = AList.update cid r (active_connections s),
          user_connections =
            (if truthy uid then index_add (the uid) cid (user_connections s)
             else user_connections s),
          scan_connections =
            (if truthy sid then index_add (the sid) cid (scan_connections s)
             else scan_connections s),
          group_connections =
            fold (\<lambda>g d. index_add g cid d) (groups client) (group_connections s)\<rparr>)"

text \<open>The block under the lock in \<open>disconnect\<close> (lines 219-240), for the client found.\<close>

definition unregister :: "string \<Rightarrow> WebSocketClient \<Rightarrow> WebSocketManager \<Rightarrow> WebSocketManager" where
  "unregister cid client s =
     s\<lparr>active_connections := AList.delete cid (active_connections s),
       user_connections :=
         (if truthy (user_id client)
          then index_discard (the (user_id client)) cid (user_connections s)
          else user_connections s),
       scan_connections :=
         (if truthy (scan_id client)
          then index_discard (the (scan_id client)) cid (scan_connections s)
          else scan_connections s),
       group_connections :=
         fold (\<lambda>g d. index_discard g cid d) (groups client) (group_connections s)\<rparr>"

subsection \<open>Sending\<close>

text \<open>
  \<open>WebSocketClient.send_json\<close> (lines 78-85): the write of the transport raises when it
  fails; the \<open>except Exception\<close> turns that into \<open>False\<close>.
\<close>

definition ws_send_json :: "transport \<Rightarrow> nat \<Rightarrow> Notification \<Rightarrow> error + unit" where
  "ws_send_json tr ws n = (if writes tr ws then Inr () else Inl TransportError)"

definition send_json :: "transport \<Rightarrow> WebSocketClient \<Rightarrow> Notification \<Rightarrow> bool \<times> attempt list" where
  "send_json tr client n =
     (case ws_send_json tr (websocket client) n of
        Inr _ \<Rightarrow> (True, [\<lparr>target = websocket client, payload = n, delivered = True\<rparr>])
      | Inl e \<Rightarrow> (False, [\<lparr>target = websocket client, payload = n, delivered = False\<rparr>]))"

text \<open>\<open>send_to_client\<close> (lines 253-268).\<close>

definition send_to_client ::
  "transport \<Rightarrow> WebSocketManager \<Rightarrow> string \<Rightarrow> Notification \<Rightarrow> bool \<times> attempt list" where
  "send_to_client tr s cid n =
     (case map_of (active_connections s) cid of
        None \<Rightarrow> (False, [])
      | Some r \<Rightarrow> send_json tr (heap s ! r) n)"

text \<open>
  The loop shared by \<open>send_to_user\<close>, \<open>send_to_scan\<close> and \<open>send_to_group\<close>
  (lines 286-288, 308-310, 330-332): \<open>results.append(result)\<close>.
\<close>

fun send_each ::
  "transport \<Rightarrow> WebSocketManager \<Rightarrow> Notification \<Rightarrow> string list
     \<Rightarrow> bool list \<times> attempt list \<Rightarrow> bool list \<times> attempt list" where
  "send_each tr s n [] acc = acc"
| "send_each tr s n (cid # cids) (results, log) =
     (let (result, l) = send_to_client tr s cid n
      in send_each tr s n cids (results @ [result], log @ l))"

definition id_list :: "index \<Rightarrow> string \<Rightarrow> string list" where
  "id_list d k = (case map_of d k of None \<Rightarrow> [] | Some S \<Rightarrow> S)"

definition send_to_user ::
  "transport \<Rightarrow> WebSocketManager \<Rightarrow> string \<Rightarrow> Notification \<Rightarrow> bool list \<times> attempt list" where
  "send_to_user tr s uid n = send_each tr s n (id_list (user_connections s) uid) ([], [])"

definition send_to_scan ::
  "transport \<Rightarrow> WebSocketManager \<Rightarrow> string \<Rightarrow> Notification \<Rightarrow> bool list \<times> attempt list" where
  "send_to_scan tr s sid n = send_each tr s n (id_list (scan_connections s) sid) ([], [])"

definition send_to_group ::
  "transport \<Rightarrow> WebSocketManager \<Rightarrow> string \<Rightarrow> Notification \<Rightarrow> bool list \<times> attempt list" where
  "send_to_group tr s g n = send_each tr s n (id_list (group_connections s) g) ([], [])"

text \<open>
  \<open>broadcast\<close> (lines 336-376). The loop runs over a copy of the keys; each key is looked
  up again, skipped when gone or excluded, and otherwise \<open>results[client_id] = result\<close>.
\<close>

definition excluded :: "string set option \<Rightarrow> string set" where
  "excluded e = (case e of None \<Rightarrow> {} | Some S \<Rightarrow> S)"

fun broadcast_loop ::
  "transport \<Rightarrow> WebSocketManager \<Rightarrow> Notification \<Rightarrow> string set \<Rightarrow> string set \<Rightarrow> string list
     \<Rightarrow> (string \<times> bool) list \<times> attempt list \<Rightarrow> (string \<times> bool) list \<times> attempt list" where
  "broadcast_loop tr s n exc exu [] acc = acc"
| "broadcast_loop tr s n exc exu (cid # cids) (results, log) =
     (case map_of (active_connections s) cid of
        None \<Rightarrow> broadcast_loop tr s n exc exu cids (results, log)
      | Some r \<Rightarrow>
          (let client = heap s ! r
           in if cid \<in> exc then broadcast_loop tr s n exc exu cids (results, log)
              else if truthy (user_id client) \<and> the (user_id client) \<in> exu
              then broadcast_loop tr s n exc exu cids (results, log)
              else (let (result, l) = send_json tr client n
                    in broadcast_loop tr s n exc exu cids
                         (AList.update cid result results, log @ l))))"

definition broadcast ::
  "transport \<Rightarrow> WebSocketManager \<Rightarrow> Notification \<Rightarrow> string set option \<Rightarrow> string set option
     \<Rightarrow> (string \<times> bool) list \<times> attempt list" where
  "broadcast tr s n exclude_client_ids exclude_user_ids =
     broadcast_loop tr s n (excluded exclude_client_ids) (excluded exclude_user_ids)
       (map fst (active_connections s)) ([], [])"

text \<open>
  \<open>connect\<close> (lines 123-199): the handshake, the registration, the \<open>connected\<close> frame to
  the new client, and \<open>user_joined\<close> to everybody else when a user id was given. It returns
  the reference to the new client object; the only way it can raise is the handshake.
\<close>

definition connect ::
  "transport \<Rightarrow> nat \<Rightarrow> string \<Rightarrow> string option \<Rightarrow> ConnectionType option \<Rightarrow> string option
     \<Rightarrow> string list option \<Rightarrow> WebSocketManager
     \<Rightarrow> error + (nat \<times> WebSocketManager \<times> attempt list)" where
  "connect tr ws cid uid ct sid gs s =
     (if \<not> accepts tr ws then Inl TransportError
      else
        (let s' = register ws cid uid ct sid gs s;
             r = length (heap s);
             l1 = snd (send_json tr (heap s' ! r)
                        \<lparr>n_type = CONNECTED, n_data = [(''client_id'', cid)]\<rparr>);
             l2 = (if truthy uid
                   then snd (broadcast tr s'
                              \<lparr>n_type = USER_JOINED,
                               n_data = [(''user_id'', the uid), (''client_id'', cid)]\<rparr>
                              (Some {cid}) None)
                   else [])
         in Inr (r, s', l1 @ l2)))"

text \<open>
  \<open>disconnect\<close> (lines 201-251): nothing when the id is unknown; otherwise the close, the
  removal, and \<open>user_left\<close> to everybody still registered. \<open>client.close\<close> swallows its own
  errors, so nothing is raised.
\<close>

definition disconnect ::
  "transport \<Rightarrow> string \<Rightarrow> WebSocketManager \<Rightarrow> WebSocketManager \<times> attempt list" where
  "disconnect tr cid s =
     (case map_of (active_connections s) cid of
        None \<Rightarrow> (s, [])
      | Some r \<Rightarrow>
          (let client = heap s ! r;
               s' = unregister cid client s
           in (s', if truthy (user_id client)
                   then snd (broadcast tr s'
                              \<lparr>n_type = USER_LEFT,
                               n_data = [(''user_id'', the (user_id client)), (''client_id'', cid)]\<rparr>
                              None None)
                   else [])))"

section \<open>The route handlers of routes/websocket.py\<close>

subsection \<open>subscribe and unsubscribe frames\<close>

text \<open>
  The handler of \<open>websocket_endpoint\<close> holds \<open>client\<close>, the reference \<open>connect\<close> returned,
  and \<open>client_id\<close>, the id it passed to \<open>connect\<close> (so \<open>client.client_id\<close>). A
  \<open>subscribe\<close> frame runs lines 146-152 for each requested group, an \<open>unsubscribe\<close> frame
  lines 167-174: both write \<open>client.groups\<close> and \<open>group_connections\<close> directly, without
  looking the client up in \<open>active_connections\<close>. The reply frame built afterwards is not
  part of these functions.
\<close>

definition subscribe_group :: "nat \<Rightarrow> string \<Rightarrow> WebSocketManager \<Rightarrow> WebSocketManager" where
  "subscribe_group r g s =
     (let client = heap s ! r
      in if g \<notin> set (groups client)
         then s\<lparr>heap := (heap s)[r := client\<lparr>groups := set_add g (groups client)\<rparr>],
                group_connections := index_add g (client_id client) (group_connections s)\<rparr>
         else s)"

definition subscribe :: "nat \<Rightarrow> string list \<Rightarrow> WebSocketManager \<Rightarrow> WebSocketManager" where
  "subscribe r gs s = fold (subscribe_group r) gs s"

definition unsubscribe_group :: "nat \<Rightarrow> string \<Rightarrow> WebSocketManager \<Rightarrow> WebSocketManager" where
  "unsubscribe_group r g s =
     (let client = heap s ! r
      in if g \<in> set (groups client)
         then s\<lparr>heap := (heap s)[r := client\<lparr>groups := set_discard g (groups client)\<rparr>],
                group_connections := index_discard g (client_id client) (group_connections s)\<rparr>
         else s)"

definition unsubscribe :: "nat \<Rightarrow> string list \<Rightarrow> WebSocketManager \<Rightarrow> WebSocketManager" where
  "unsubscribe r gs s = fold (unsubscribe_group r) gs s"

subsection \<open>Malformed frames and pings\<close>

text \<open>
  What \<open>json.loads\<close> made of a received text frame, for the two kinds the loops below
  treat alike in their structure: text that is not JSON, and \<open>{"type": "ping"}\<close>.
\<close>

datatype client_frame = InvalidJson | PingFrame

text \<open>
  One turn of the loop of \<open>websocket_endpoint\<close> (lines 122-215): a ping is answered through
  \<open>send_to_client(client_id, pong)\<close>; \<open>json.JSONDecodeError\<close> is answered through
  \<open>send_to_client(client_id, error)\<close>. Neither touches the registry.
\<close>

definition endpoint_frame ::
  "transport \<Rightarrow> string \<Rightarrow> client_frame \<Rightarrow> WebSocketManager \<Rightarrow> WebSocketManager \<times> attempt list" where
  "endpoint_frame tr cid f s =
     (case f of
        PingFrame \<Rightarrow> (s, snd (send_to_client tr s cid \<lparr>n_type = PONG, n_data = []\<rparr>))
      | InvalidJson \<Rightarrow>
          (s, snd (send_to_client tr s cid
                    \<lparr>n_type = ERROR, n_data = [(''message'', ''Invalid JSON format'')]\<rparr>)))"

fun endpoint_loop ::
  "transport \<Rightarrow> string \<Rightarrow> client_frame list \<Rightarrow> WebSocketManager \<Rightarrow> WebSocketManager \<times> attempt list" where
  "endpoint_loop tr cid [] s = (s, [])"
| "endpoint_loop tr cid (f # fs) s =
     (let (s1, l1) = endpoint_frame tr cid f s;
          (s2, l2) = endpoint_loop tr cid fs s1
      in (s2, l1 @ l2))"

text \<open>
  One turn of the loop of \<open>WebSocketManager.handle_client\<close> (websocket\_manager.py
  407-428): a ping is answered on the handler's own \<open>client\<close>; \<open>json.JSONDecodeError\<close>
  is logged and nothing is sent.
\<close>

definition handle_client_frame ::
  "transport \<Rightarrow> nat \<Rightarrow> client_frame \<Rightarrow> WebSocketManager \<Rightarrow> WebSocketManager \<times> attempt list" where
  "handle_client_frame tr r f s =
     (case f of
        PingFrame \<Rightarrow> (s, snd (send_json tr (heap s ! r) \<lparr>n_type = PONG, n_data = []\<rparr>))
      | InvalidJson \<Rightarrow> (s, []))"

fun handle_client_loop ::
  "transport \<Rightarrow> nat \<Rightarrow> client_frame list \<Rightarrow> WebSocketManager \<Rightarrow> WebSocketManager \<times> attempt list" where
  "handle_client_loop tr r [] s = (s, [])"
| "handle_client_loop tr r (f # fs) s =
     (let (s1, l1) = handle_client_frame tr r f s;
          (s2, l2) = handle_client_loop tr r fs s1
      in (s2, l1 @ l2))"

subsection \<open>The notify route\<close>

text \<open>
  \<open>send_notification\<close> (lines 280-348) stores under \<open>results["sent_to"]\<close> whatever the
  manager returned: the dictionary of \<open>broadcast\<close>, the list of \<open>send_to_user\<close>,
  \<open>send_to_group\<close> and \<open>send_to_scan\<close>, or a one-entry dictionary it builds itself for a
  single client; \<open>results["count"]\<close> goes with it. Any other combination raises.
\<close>

datatype sent_to = ResultDict "(string \<times> bool) list" | ResultList "bool list"

definition send_notification ::
  "transport \<Rightarrow> WebSocketManager \<Rightarrow> string \<Rightarrow> string option \<Rightarrow> Notification
     \<Rightarrow> error + (sent_to \<times> nat)" where
  "send_notification tr s target_type target_id n =
     (if target_type = ''broadcast''
      then (let res = fst (broadcast tr s n None None) in Inr (ResultDict res, length res))
      else if target_type = ''user'' \<and> truthy target_id
      then (let res = fst (send_to_user tr s (the target_id) n) in Inr (ResultList res, length res))
      else if target_type = ''group'' \<and> truthy target_id
      then (let res = fst (send_to_group tr s (the target_id) n) in Inr (ResultList res, length res))
      else if target_type = ''client'' \<and> truthy target_id
      then (let success = fst (send_to_client tr s (the target_id) n)
            in Inr (ResultDict [(the target_id, success)], if success then 1 else 0))
      else if target_type = ''scan'' \<and> truthy target_id
      then (let res = fst (send_to_scan tr s (the target_id) n) in Inr (ResultList res, length res))
      else Inl HTTPError)"

section \<open>The manager of services/notifications/websocket.py\<close>

text \<open>
  The second \<open>WebSocketManager\<close> class: \<open>active_connections\<close> maps a client id to its
  WebSocket, \<open>channels\<close> maps a channel to a list of client ids. Its \<open>disconnect\<close>
  (lines 16-22) and \<open>send_message\<close> (lines 34-40) are named \<open>legacy_disconnect\<close> and
  \<open>send_message\<close> here. \<open>send_message\<close> has no return value.
\<close>

record LegacyManager =
  legacy_connections :: "(string \<times> nat) list"
  channels :: "(string \<times> string list) list"

definition legacy_disconnect :: "string \<Rightarrow> LegacyManager \<Rightarrow> LegacyManager" where
  "legacy_disconnect cid m =
     (if map_of (legacy_connections m) cid \<noteq> None
      then \<lparr>legacy_connections = AList.delete cid (legacy_connections m),
            channels = map (\<lambda>(channel, clients).
                         (channel, if cid \<in> set clients then remove1 cid clients else clients))
                       (channels m)\<rparr>
      else m)"

definition send_message ::
  "transport \<Rightarrow> string \<Rightarrow> Notification \<Rightarrow> LegacyManager \<Rightarrow> LegacyManager \<times> attempt list" where
  "send_message tr cid message m =
     (case map_of (legacy_connections m) cid of
        None \<Rightarrow> (m, [])
      | Some ws \<Rightarrow>
          (case ws_send_json tr ws message of
             Inr _ \<Rightarrow> (m, [\<lparr>target = ws, payload = message, delivered = True\<rparr>])
           | Inl e \<Rightarrow> (legacy_disconnect cid m,
                       [\<lparr>target = ws, payload = message, delivered = False\<rparr>])))"

section \<open>Sequences of manager operations\<close>

text \<open>
  The operations that change the registry: a call of \<open>connect\<close>, a call of \<open>disconnect\<close>,
  and a subscribe or unsubscribe frame handled for the client object with a given
  reference. A handler only ever holds a reference that \<open>connect\<close> returned, so a frame
  for a reference that was never allocated does nothing.
\<close>

datatype op =
    Connect nat string "string option" "ConnectionType option" "string option" "string list option"
  | Disconnect string
  | Subscribe nat "string list"
  | Unsubscribe nat "string list"

fun step :: "transport \<Rightarrow> op \<Rightarrow> WebSocketManager \<Rightarrow> WebSocketManager" where
  "step tr (Connect ws cid uid ct sid gs) s =
     (case connect tr ws cid uid ct sid gs s of Inl e \<Rightarrow> s | Inr (r, s', l) \<Rightarrow> s')"
| "step tr (Disconnect cid) s = fst (disconnect tr cid s)"
| "step tr (Subscribe r gs) s = (if r < length (heap s) then subscribe r gs s else s)"
| "step tr (Unsubscribe r gs) s = (if r < length (heap s) then unsubscribe r gs s else s)"

definition run :: "transport \<Rightarrow> op list \<Rightarrow> WebSocketManager \<Rightarrow> WebSocketManager" where
  "run tr ops s = fold (step tr) ops s"

text \<open>
  Client ids are unique while registered: \<open>connect\<close> is called with an id that is not a
  key of \<open>active_connections\<close>, and a frame is handled for a client that is registered
  (the handler's own reference is the one stored under its id).
\<close>

definition registered :: "nat \<Rightarrow> WebSocketManager \<Rightarrow> bool" where
  "registered r s =
     (r < length (heap s) \<and> map_of (active_connections s) (client_id (heap s ! r)) = Some r)"

fun admissible :: "op \<Rightarrow> WebSocketManager \<Rightarrow> bool" where
  "admissible (Connect ws cid uid ct sid gs) s = (map_of (active_connections s) cid = None)"
| "admissible (Disconnect cid) s = True"
| "admissible (Subscribe r gs) s = registered r s"
| "admissible (Unsubscribe r gs) s = registered r s"

fun admissible_run :: "transport \<Rightarrow> op list \<Rightarrow> WebSocketManager \<Rightarrow> bool" where
  "admissible_run tr [] s = True"
| "admissible_run tr (x # xs) s = (admissible x s \<and> admissible_run tr xs (step tr x s))"

subsection \<open>Properties of the registry\<close>

text \<open>Every stored reference points to an allocated client object carrying that id.\<close>

definition heap_ok :: "WebSocketManager \<Rightarrow> bool" where
  "heap_ok s = (\<forall>cid r. map_of (active_connections s) cid = Some r
                  \<longrightarrow> r < length (heap s) \<and> client_id (heap s ! r) = cid)"

text \<open>An id is listed under a group exactly when its registered client holds that group.\<close>

definition group_inv :: "WebSocketManager \<Rightarrow> bool" where
  "group_inv s = (\<forall>cid g. cid \<in> members (group_connections s) g
                    \<longleftrightarrow> (\<exists>r. map_of (active_connections s) cid = Some r
                              \<and> g \<in> set (groups (heap s ! r))))"

definition user_inv :: "WebSocketManager \<Rightarrow> bool" where
  "user_inv s = (\<forall>cid u. cid \<in> members (user_connections s) u
                   \<longrightarrow> (\<exists>r. map_of (active_connections s) cid = Some r
                             \<and> user_id (heap s ! r) = Some u \<and> u \<noteq> []))"

definition scan_inv :: "WebSocketManager \<Rightarrow> bool" where
  "scan_inv s = (\<forall>cid k. cid \<in> members (scan_connections s) k
                   \<longrightarrow> (\<exists>r. map_of (active_connections s) cid = Some r
                             \<and> scan_id (heap s ! r) = Some k \<and> k \<noteq> []))"

definition registry_inv :: "WebSocketManager \<Rightarrow> bool" where
  "registry_inv s = (heap_ok s \<and> group_inv s \<and> user_inv s \<and> scan_inv s)"

text \<open>No key of an index maps to the empty set.\<close>

definition no_empty :: "index \<Rightarrow> bool" where
  "no_empty d = list_all (\<lambda>kv. snd kv \<noteq> []) d"

definition no_empty_entries :: "WebSocketManager \<Rightarrow> bool" where
  "no_empty_entries s =
     (no_empty (user_connections s) \<and> no_empty (scan_connections s)
      \<and> no_empty (group_connections s))"

text \<open>Which keys the loop of \<open>broadcast\<close> sends to, and the client stored under a key.\<close>

definition client_of :: "WebSocketManager \<Rightarrow> string \<Rightarrow> WebSocketClient" where
  "client_of s cid = heap s ! the (map_of (active_connections s) cid)"

definition targeted :: "WebSocketManager \<Rightarrow> string set \<Rightarrow> string set \<Rightarrow> string \<Rightarrow> bool" where
  "targeted s exc exu cid =
     (map_of (active_connections s) cid \<noteq> None \<and> cid \<notin> exc
      \<and> \<not> (truthy (user_id (client_of s cid)) \<and> the (user_id (client_of s cid)) \<in> exu))"

text \<open>Two transports for concrete runs: every write succeeds; every write but one succeeds.\<close>

definition all_up :: transport where
  "all_up = \<lparr>accepts = (\<lambda>ws. True), writes = (\<lambda>ws. True)\<rparr>"

definition down :: "nat \<Rightarrow> transport" where
  "down b = \<lparr>accepts = (\<lambda>ws. True), writes = (\<lambda>ws. ws \<noteq> b)\<rparr>"

text \<open>A registry with three clients, and a notification, for concrete runs.\<close>

definition abc :: WebSocketManager where
  "abc = run all_up
     [Connect 1 ''A'' None None None None,
      Connect 2 ''B'' (Some ''u1'') (Some USER) None (Some [''public'']),
      Connect 3 ''C'' None (Some DASHBOARD) (Some ''s1'') None] fresh"

definition alert :: Notification where
  "alert = \<lparr>n_type = SYSTEM_ALERT, n_data = [(''message'', ''maintenance'')]\<rparr>"

text \<open>
  Further concrete runs: one client; the same id connected twice; the same id connected
  twice and then disconnected once; and a session of two clients with distinct ids.
\<close>

definition one :: WebSocketManager where
  "one = run all_up [Connect 1 ''a'' (Some ''u1'') None None (Some [''public''])] fresh"

definition dup :: WebSocketManager where
  "dup = run all_up
     [Connect 1 ''a'' (Some ''u1'') None None (Some [''public'']),
      Connect 2 ''a'' None None None None] fresh"

definition gone :: WebSocketManager where
  "gone = run all_up
     [Connect 1 ''a'' None None None None,
      Connect 2 ''a'' None None None None,
      Disconnect ''a''] fresh"

definition session :: "op list" where
  "session =
     [Connect 1 ''a'' (Some ''u1'') (Some USER) None (Some [''public'']),
      Connect 2 ''b'' (Some ''u1'') (Some USER) (Some ''s1'') (Some [''public'']),
      Subscribe 0 [''alerts''], Unsubscribe 1 [''public''], Disconnect ''b'']"

text \<open>A manager of the second kind with two clients on two channels.\<close>

definition legacy :: LegacyManager where
  "legacy = \<lparr>legacy_connections = [(''x'', 7), (''y'', 8)],
             channels = [(''threats'', [''x'', ''y'']), (''scan_1'', [''y''])]\<rparr>"

section \<open>Index operations, seen as sets\<close>

lemma members_index_add:
  "members (index_add k cid d) k' = (if k' = k then insert cid (members d k) else members d k')"
  by (auto simp: members_def index_add_def set_add_def Let_def AList.update_conv'
           split: option.splits)

lemma removeAll_Nil_iff: "removeAll x xs = [] \<longleftrightarrow> set xs \<subseteq> {x}"
  by (induction xs) auto

lemma members_index_discard:
  "members (index_discard k cid d) k' = (if k' = k then members d k - {cid} else members d k')"
  by (auto simp: members_def index_discard_def set_discard_def Let_def removeAll_Nil_iff
                 AList.update_conv' AList.delete_conv'
           split: option.splits)

lemma members_fold_add:
  "members (fold (\<lambda>g d. index_add g cid d) gs d) k =
     (if k \<in> set gs then insert cid (members d k) else members d k)"
  by (induction gs arbitrary: d) (auto simp: members_index_add)

lemma members_fold_discard:
  "members (fold (\<lambda>g d. index_discard g cid d) gs d) k =
     (if k \<in> set gs then members d k - {cid} else members d k)"
  by (induction gs arbitrary: d) (auto simp: members_index_discard)

section \<open>No empty index entries\<close>

lemma list_all_update:
  "list_all P d \<Longrightarrow> P (k, v) \<Longrightarrow> list_all P (AList.update k v d)"
  by (induction d) auto

lemma list_all_delete: "list_all P d \<Longrightarrow> list_all P (AList.delete k d)"
  by (simp add: AList.delete_eq list_all_iff)

lemma no_empty_index_add: "no_empty d \<Longrightarrow> no_empty (index_add k cid d)"
  unfolding no_empty_def index_add_def set_add_def
  by (auto simp: Let_def AList.update_conv' intro!: list_all_update split: option.splits)

lemma no_empty_index_discard: "no_empty d \<Longrightarrow> no_empty (index_discard k cid d)"
  unfolding no_empty_def index_discard_def
  by (auto simp: Let_def intro!: list_all_update list_all_delete split: option.splits)

lemma no_empty_fold_add:
  "no_empty d \<Longrightarrow> no_empty (fold (\<lambda>g d. index_add g cid d) gs d)"
  by (induction gs arbitrary: d) (auto simp: no_empty_index_add)

lemma no_empty_fold_discard:
  "no_empty d \<Longrightarrow> no_empty (fold (\<lambda>g d. index_discard g cid d) gs d)"
  by (induction gs arbitrary: d) (auto simp: no_empty_index_discard)

lemma no_empty_register:
  "no_empty_entries s \<Longrightarrow> no_empty_entries (register ws cid uid ct sid gs s)"
  by (simp add: no_empty_entries_def register_def Let_def no_empty_index_add no_empty_fold_add)

lemma no_empty_unregister:
  "no_empty_entries s \<Longrightarrow> no_empty_entries (unregister cid client s)"
  by (simp add: no_empty_entries_def unregister_def no_empty_index_discard no_empty_fold_discard)

lemma no_empty_subscribe_group:
  "no_empty_entries s \<Longrightarrow> no_empty_entries (subscribe_group r g s)"
  by (simp add: no_empty_entries_def subscribe_group_def Let_def no_empty_index_add)

lemma no_empty_unsubscribe_group:
  "no_empty_entries s \<Longrightarrow> no_empty_entries (unsubscribe_group r g s)"
  by (simp add: no_empty_entries_def unsubscribe_group_def Let_def no_empty_index_discard)

lemma no_empty_subscribe: "no_empty_entries s \<Longrightarrow> no_empty_entries (subscribe r gs s)"
  unfolding subscribe_def by (induction gs arbitrary: s) (auto simp: no_empty_subscribe_group)

lemma no_empty_unsubscribe: "no_empty_entries s \<Longrightarrow> no_empty_entries (unsubscribe r gs s)"
  unfolding unsubscribe_def by (induction gs arbitrary: s) (auto simp: no_empty_unsubscribe_group)

lemma connect_state:
  "connect tr ws cid uid ct sid gs s = Inr (r, s', l) \<Longrightarrow>
     r = length (heap s) \<and> s' = register ws cid uid ct sid gs s"
  by (auto simp: connect_def Let_def split: if_splits)

lemma disconnect_state:
  "fst (disconnect tr cid s) =
     (case map_of (active_connections s) cid of
        None \<Rightarrow> s | Some r \<Rightarrow> unregister cid (heap s ! r) s)"
  by (simp add: disconnect_def Let_def split: option.splits)

lemma no_empty_step: "no_empty_entries s \<Longrightarrow> no_empty_entries (step tr x s)"
  by (cases x)
     (auto simp: no_empty_register no_empty_unregister no_empty_subscribe no_empty_unsubscribe
                 disconnect_state
           dest!: connect_state split: sum.splits option.splits)

lemma no_empty_run: "no_empty_entries s \<Longrightarrow> no_empty_entries (run tr ops s)"
  unfolding run_def by (induction ops arbitrary: s) (auto simp: no_empty_step)

lemma no_empty_fresh: "no_empty_entries fresh"
  by (simp add: no_empty_entries_def no_empty_def fresh_def)

text \<open>
  Claim C10. After any finite sequence of connect, disconnect, subscribe and unsubscribe
  operations on a fresh manager, no key of \<open>user_connections\<close>, \<open>scan_connections\<close> or
  \<open>group_connections\<close> is stored with an empty set: an operation that removes the last
  client id of an entry deletes the key.
\<close>

theorem no_empty_index_entries: "no_empty_entries (run tr ops fresh)"
  by (rule no_empty_run [OF no_empty_fresh])

theorem no_empty_index_entries_witness:
  "no_empty_entries
     (run all_up
        [Connect 1 ''a'' (Some ''u1'') (Some USER) None (Some [''public'']),
         Connect 2 ''b'' (Some ''u1'') (Some USER) (Some ''s1'') (Some [''public'']),
         Subscribe 0 [''alerts''], Unsubscribe 1 [''public''], Disconnect ''a''] fresh)"
  by (rule no_empty_index_entries)

section \<open>Broadcast\<close>

lemma send_json_simps:
  "fst (send_json tr c n) = writes tr (websocket c)"
  "snd (send_json tr c n) = [\<lparr>target = websocket c, payload = n, delivered = writes tr (websocket c)\<rparr>]"
  by (auto simp: send_json_def ws_send_json_def)

lemma broadcast_loop_log:
  "snd (broadcast_loop tr s n exc exu cids (res, log)) =
     log @ concat (map (\<lambda>k. snd (send_json tr (client_of s k) n))
                       (filter (targeted s exc exu) cids))"
proof (induction cids arbitrary: res log)
  case Nil
  then show ?case by simp
next
  case (Cons cid cids)
  show ?case
  proof (cases "map_of (active_connections s) cid")
    case None
    then show ?thesis using Cons by (simp add: targeted_def)
  next
    case (Some r)
    then show ?thesis using Cons
      by (simp add: targeted_def client_of_def Let_def split: prod.splits)
  qed
qed

lemma broadcast_loop_results:
  "map_of (fst (broadcast_loop tr s n exc exu cids (res, log))) k =
     (if k \<in> set cids \<and> targeted s exc exu k
      then Some (fst (send_json tr (client_of s k) n)) else map_of res k)"
proof (induction cids arbitrary: res log)
  case Nil
  then show ?case by simp
next
  case (Cons cid cids)
  show ?case
  proof (cases "map_of (active_connections s) cid")
    case None
    then show ?thesis using Cons by (auto simp: targeted_def)
  next
    case (Some r)
    then show ?thesis using Cons
      by (auto simp: targeted_def client_of_def Let_def AList.update_conv' split: prod.splits)
  qed
qed

lemma broadcast_loop_keys:
  "fst ` set (fst (broadcast_loop tr s n exc exu cids (res, log))) =
     fst ` set res \<union> {k \<in> set cids. targeted s exc exu k}"
proof (induction cids arbitrary: res log)
  case Nil
  then show ?case by simp
next
  case (Cons cid cids)
  show ?case
  proof (cases "map_of (active_connections s) cid")
    case None
    then show ?thesis using Cons by (auto simp: targeted_def)
  next
    case (Some r)
    then show ?thesis using Cons
      by (auto simp: targeted_def client_of_def Let_def AList.dom_update split: prod.splits)
  qed
qed

lemma broadcast_loop_attempt:
  "k \<in> set cids \<Longrightarrow> targeted s exc exu k \<Longrightarrow>
     \<lparr>target = websocket (client_of s k), payload = n,
      delivered = writes tr (websocket (client_of s k))\<rparr>
       \<in> set (snd (broadcast_loop tr s n exc exu cids (res, log)))"
  by (auto simp: broadcast_loop_log send_json_simps)

lemma key_registered: "k \<in> set (map fst al) \<Longrightarrow> map_of al k \<noteq> None"
  by (simp add: map_of_eq_None_iff)

lemma abc_value: "abc =
  \<lparr>heap =
    [\<lparr>websocket = 1, client_id = ''A'', user_id = None, connection_type = None, scan_id = None, groups = []\<rparr>,
     \<lparr>websocket = 2, client_id = ''B'', user_id = Some ''u1'', connection_type = Some USER, scan_id = None, groups = [''public'']\<rparr>,
     \<lparr>websocket = 3, client_id = ''C'', user_id = None, connection_type = Some DASHBOARD, scan_id = Some ''s1'', groups = []\<rparr>],
   active_connections = [(''A'', 0), (''B'', 1), (''C'', 2)],
   user_connections = [(''u1'', [''B''])],
   scan_connections = [(''s1'', [''C''])],
   group_connections = [(''public'', [''B''])]\<rparr>"
  by (simp add: abc_def run_def connect_def register_def new_client_def fresh_def all_up_def
                truthy_def set_of_list_def index_add_def set_add_def Let_def)

text \<open>
  Claim C2. Isolation under send failure: when A, B and C are registered and targeted by a
  broadcast, and the transport write to B fails while the writes to A and C succeed, the
  loop still writes the notification to A and to C, and the returned dictionary maps A to
  true, B to false and C to true. \<open>broadcast\<close> has no error result: the failed write is
  caught in \<open>send_json\<close>.
\<close>

theorem broadcast_isolation:
  assumes "map_of (active_connections s) A = Some ra"
      and "map_of (active_connections s) B = Some rb"
      and "map_of (active_connections s) C = Some rc"
      and "writes tr (websocket (heap s ! ra))"
      and "\<not> writes tr (websocket (heap s ! rb))"
      and "writes tr (websocket (heap s ! rc))"
      and "targeted s (excluded ec) (excluded eu) A"
      and "targeted s (excluded ec) (excluded eu) B"
      and "targeted s (excluded ec) (excluded eu) C"
  shows "map_of (fst (broadcast tr s n ec eu)) A = Some True
       \<and> map_of (fst (broadcast tr s n ec eu)) B = Some False
       \<and> map_of (fst (broadcast tr s n ec eu)) C = Some True
       \<and> \<lparr>target = websocket (heap s ! ra), payload = n, delivered = True\<rparr>
            \<in> set (snd (broadcast tr s n ec eu))
       \<and> \<lparr>target = websocket (heap s ! rc), payload = n, delivered = True\<rparr>
            \<in> set (snd (broadcast tr s n ec eu))"
proof -
  have keys: "A \<in> set (map fst (active_connections s))" "B \<in> set (map fst (active_connections s))"
    "C \<in> set (map fst (active_connections s))"
    using assms(1-3) by (auto dest: map_of_SomeD intro: rev_image_eqI)
  have cl: "client_of s A = heap s ! ra" "client_of s B = heap s ! rb" "client_of s C = heap s ! rc"
    using assms(1-3) by (simp_all add: client_of_def)
  have res: "map_of (fst (broadcast tr s n ec eu)) A = Some True"
    "map_of (fst (broadcast tr s n ec eu)) B = Some False"
    "map_of (fst (broadcast tr s n ec eu)) C = Some True"
    using keys assms(4-9) cl
    by (simp_all add: broadcast_def broadcast_loop_results send_json_simps)
  have "\<lparr>target = websocket (client_of s A), payload = n,
          delivered = writes tr (websocket (client_of s A))\<rparr>
            \<in> set (snd (broadcast tr s n ec eu))"
    unfolding broadcast_def by (rule broadcast_loop_attempt [OF keys(1) assms(7)])
  moreover have "\<lparr>target = websocket (client_of s C), payload = n,
          delivered = writes tr (websocket (client_of s C))\<rparr>
            \<in> set (snd (broadcast tr s n ec eu))"
    unfolding broadcast_def by (rule broadcast_loop_attempt [OF keys(3) assms(9)])
  ultimately have log: "\<lparr>target = websocket (heap s ! ra), payload = n, delivered = True\<rparr>
            \<in> set (snd (broadcast tr s n ec eu))"
    "\<lparr>target = websocket (heap s ! rc), payload = n, delivered = True\<rparr>
            \<in> set (snd (broadcast tr s n ec eu))"
    using assms(4,6) cl by simp_all
  show ?thesis using res log by simp
qed


theorem broadcast_isolation_witness:
  "map_of (active_connections abc) ''A'' = Some 0
   \<and> map_of (active_connections abc) ''B'' = Some 1
   \<and> map_of (active_connections abc) ''C'' = Some 2
   \<and> writes (down 2) (websocket (heap abc ! 0))
   \<and> \<not> writes (down 2) (websocket (heap abc ! 1))
   \<and> writes (down 2) (websocket (heap abc ! 2))
   \<and> targeted abc (excluded None) (excluded None) ''A''
   \<and> targeted abc (excluded None) (excluded None) ''B''
   \<and> targeted abc (excluded None) (excluded None) ''C''
   \<and> map_of (fst (broadcast (down 2) abc alert None None)) ''A'' = Some True
   \<and> map_of (fst (broadcast (down 2) abc alert None None)) ''B'' = Some False
   \<and> map_of (fst (broadcast (down 2) abc alert None None)) ''C'' = Some True
   \<and> \<lparr>target = 1, payload = alert, delivered = True\<rparr>
        \<in> set (snd (broadcast (down 2) abc alert None None))
   \<and> \<lparr>target = 3, payload = alert, delivered = True\<rparr>
        \<in> set (snd (broadcast (down 2) abc alert None None))"
proof -
  have h: "map_of (active_connections abc) ''A'' = Some 0"
    "map_of (active_connections abc) ''B'' = Some 1"
    "map_of (active_connections abc) ''C'' = Some 2"
    "writes (down 2) (websocket (heap abc ! 0))"
    "\<not> writes (down 2) (websocket (heap abc ! 1))"
    "writes (down 2) (websocket (heap abc ! 2))"
    "targeted abc (excluded None) (excluded None) ''A''"
    "targeted abc (excluded None) (excluded None) ''B''"
    "targeted abc (excluded None) (excluded None) ''C''"
    by (simp_all add: abc_value down_def targeted_def excluded_def client_of_def)
  from broadcast_isolation [OF h, of alert] h show ?thesis
    by (simp add: abc_value)
qed


text \<open>
  Claim C6. Broadcast completeness with exclusion: a broadcast with the exclusion set
  \<open>{a}\<close> calls the transport once for every key of \<open>active_connections\<close> other than \<open>a\<close>,
  in the order of the dictionary, on the WebSocket of the client stored under that key; the
  keys of the returned dictionary are the registered ids other than \<open>a\<close>. This holds for
  every registry, so for every order of registration.
\<close>

theorem broadcast_exclusion:
  "map target (snd (broadcast tr s n (Some {a}) None)) =
     map (\<lambda>cid. websocket (client_of s cid))
         (filter (\<lambda>cid. cid \<noteq> a) (map fst (active_connections s)))
   \<and> fst ` set (fst (broadcast tr s n (Some {a}) None)) = fst ` set (active_connections s) - {a}"
proof -
  have eq: "filter (targeted s {a} {}) (map fst (active_connections s)) =
            filter (\<lambda>cid. cid \<noteq> a) (map fst (active_connections s))"
    by (rule filter_cong) (auto simp: targeted_def map_of_eq_None_iff)
  have "map target (snd (broadcast tr s n (Some {a}) None)) =
        map (\<lambda>cid. websocket (client_of s cid))
            (filter (targeted s {a} {}) (map fst (active_connections s)))"
    by (simp add: broadcast_def excluded_def broadcast_loop_log send_json_simps map_concat comp_def)
  moreover have "fst ` set (fst (broadcast tr s n (Some {a}) None)) =
                 fst ` set (active_connections s) - {a}"
    by (auto simp: broadcast_def excluded_def broadcast_loop_keys targeted_def map_of_eq_None_iff)
  ultimately show ?thesis using eq by simp
qed


theorem broadcast_exclusion_witness:
  "map target (snd (broadcast (down 2) abc alert (Some {''A''}) None)) = [2, 3]
   \<and> fst ` set (fst (broadcast (down 2) abc alert (Some {''A''}) None)) = {''B'', ''C''}"
  using broadcast_exclusion [of "down 2" abc alert "''A''"]
  by (auto simp: abc_value client_of_def)

section \<open>Disconnect\<close>

text \<open>
  Claim C5. Unregister idempotence: a second \<open>disconnect\<close> of the same id leaves the
  registry (primary map, all indexes, client objects) as the first call left it and sends
  nothing; \<open>disconnect\<close> of an id that is not a key of \<open>active_connections\<close> returns the
  registry unchanged. \<open>disconnect\<close> has no error result.
\<close>

theorem disconnect_idempotent:
  "fst (disconnect tr2 cid (fst (disconnect tr1 cid s))) = fst (disconnect tr1 cid s)
   \<and> snd (disconnect tr2 cid (fst (disconnect tr1 cid s))) = []
   \<and> (map_of (active_connections s) cid = None \<longrightarrow> disconnect tr1 cid s = (s, []))"
  by (auto simp: disconnect_def Let_def unregister_def AList.delete_conv' split: option.splits)


theorem disconnect_idempotent_witness:
  "map_of (active_connections abc) ''Z'' = None
   \<and> disconnect all_up ''Z'' abc = (abc, [])
   \<and> fst (disconnect (down 2) ''B'' (fst (disconnect all_up ''B'' abc)))
       = fst (disconnect all_up ''B'' abc)
   \<and> snd (disconnect (down 2) ''B'' (fst (disconnect all_up ''B'' abc))) = []"
  using disconnect_idempotent [of "down 2" "''B''" all_up abc]
        disconnect_idempotent [of all_up "''Z''" all_up abc]
  by (simp add: abc_value)

section \<open>The registry invariant\<close>

lemma register_fields:
  "heap (register ws cid uid ct sid gs s) = heap s @ [new_client ws cid uid ct sid gs]"
  "map_of (active_connections (register ws cid uid ct sid gs s)) =
     (map_of (active_connections s))(cid \<mapsto> length (heap s))"
  "members (user_connections (register ws cid uid ct sid gs s)) u =
     (if truthy uid \<and> u = the uid then insert cid (members (user_connections s) u)
      else members (user_connections s) u)"
  "members (scan_connections (register ws cid uid ct sid gs s)) k =
     (if truthy sid \<and> k = the sid then insert cid (members (scan_connections s) k)
      else members (scan_connections s) k)"
  "members (group_connections (register ws cid uid ct sid gs s)) g =
     (if g \<in> set (groups (new_client ws cid uid ct sid gs))
      then insert cid (members (group_connections s) g)
      else members (group_connections s) g)"
  by (simp_all add: register_def Let_def AList.update_conv' members_index_add members_fold_add)

lemma unregister_fields:
  "heap (unregister cid client s) = heap s"
  "map_of (active_connections (unregister cid client s)) =
     (map_of (active_connections s))(cid := None)"
  "members (user_connections (unregister cid client s)) u =
     (if truthy (user_id client) \<and> u = the (user_id client)
      then members (user_connections s) u - {cid} else members (user_connections s) u)"
  "members (scan_connections (unregister cid client s)) k =
     (if truthy (scan_id client) \<and> k = the (scan_id client)
      then members (scan_connections s) k - {cid} else members (scan_connections s) k)"
  "members (group_connections (unregister cid client s)) g =
     (if g \<in> set (groups client)
      then members (group_connections s) g - {cid} else members (group_connections s) g)"
  by (simp_all add: unregister_def AList.delete_conv' members_index_discard members_fold_discard)

lemma truthy_Some: "truthy v \<longleftrightarrow> (\<exists>u. v = Some u \<and> u \<noteq> [])"
  by (cases v) (auto simp: truthy_def)

lemma inv_register:
  assumes "registry_inv s" and "map_of (active_connections s) cid = None"
  shows "registry_inv (register ws cid uid ct sid gs s)"
proof -
  let ?s = "register ws cid uid ct sid gs s"
  have ok: "heap_ok s" and gi: "group_inv s" and ui: "user_inv s" and si: "scan_inv s"
    using assms(1) by (simp_all add: registry_inv_def)
  have old: "\<And>c r. map_of (active_connections s) c = Some r \<Longrightarrow>
                 r < length (heap s) \<and> heap ?s ! r = heap s ! r"
    using ok by (simp add: heap_ok_def register_fields nth_append)
  have new: "heap ?s ! length (heap s) = new_client ws cid uid ct sid gs"
    by (simp add: register_fields)
  have nog: "\<And>g. cid \<notin> members (group_connections s) g"
    using gi assms(2) by (simp add: group_inv_def)
  have nou: "\<And>u. cid \<notin> members (user_connections s) u"
    using ui assms(2) unfolding user_inv_def by fastforce
  have nos: "\<And>k. cid \<notin> members (scan_connections s) k"
    using si assms(2) unfolding scan_inv_def by fastforce
  have len: "length (heap ?s) = Suc (length (heap s))"
    by (simp add: register_fields)
  have "heap_ok ?s"
    unfolding heap_ok_def
  proof (intro allI impI)
    fix c r
    assume a: "map_of (active_connections ?s) c = Some r"
    show "r < length (heap ?s) \<and> client_id (heap ?s ! r) = c"
    proof (cases "c = cid")
      case True
      then have "r = length (heap s)" using a by (simp add: register_fields(2))
      then show ?thesis using True new len by (simp add: new_client_def)
    next
      case False
      then have b: "map_of (active_connections s) c = Some r"
        using a by (simp add: register_fields(2))
      then have "client_id (heap s ! r) = c" using ok by (simp add: heap_ok_def)
      then show ?thesis using old [OF b] len by simp
    qed
  qed
  moreover have "group_inv ?s"
    unfolding group_inv_def
  proof (intro allI)
    fix c g
    show "c \<in> members (group_connections ?s) g \<longleftrightarrow>
          (\<exists>r. map_of (active_connections ?s) c = Some r \<and> g \<in> set (groups (heap ?s ! r)))"
    proof (cases "c = cid")
      case True
      then show ?thesis using nog new by (simp add: register_fields(2,5))
    next
      case False
      then show ?thesis using gi old
        by (auto simp: register_fields(2,5) group_inv_def)
    qed
  qed
  moreover have "user_inv ?s"
    unfolding user_inv_def
  proof (intro allI impI)
    fix c u
    assume m: "c \<in> members (user_connections ?s) u"
    show "\<exists>r. map_of (active_connections ?s) c = Some r \<and> user_id (heap ?s ! r) = Some u \<and> u \<noteq> []"
    proof (cases "c = cid")
      case True
      then show ?thesis using m nou new
        by (auto simp: register_fields(2,3) new_client_def truthy_Some split: if_splits)
    next
      case False
      then have "c \<in> members (user_connections s) u"
        using m by (simp add: register_fields(3) split: if_splits)
      then obtain r where r: "map_of (active_connections s) c = Some r"
        "user_id (heap s ! r) = Some u" "u \<noteq> []"
        using ui unfolding user_inv_def by blast
      then show ?thesis using False old [OF r(1)] by (simp add: register_fields(2))
    qed
  qed
  moreover have "scan_inv ?s"
    unfolding scan_inv_def
  proof (intro allI impI)
    fix c k
    assume m: "c \<in> members (scan_connections ?s) k"
    show "\<exists>r. map_of (active_connections ?s) c = Some r \<and> scan_id (heap ?s ! r) = Some k \<and> k \<noteq> []"
    proof (cases "c = cid")
      case True
      then show ?thesis using m nos new
        by (auto simp: register_fields(2,4) new_client_def truthy_Some split: if_splits)
    next
      case False
      then have "c \<in> members (scan_connections s) k"
        using m by (simp add: register_fields(4) split: if_splits)
      then obtain r where r: "map_of (active_connections s) c = Some r"
        "scan_id (heap s ! r) = Some k" "k \<noteq> []"
        using si unfolding scan_inv_def by blast
      then show ?thesis using False old [OF r(1)] by (simp add: register_fields(2))
    qed
  qed
  ultimately show ?thesis by (simp add: registry_inv_def)
qed

lemma inv_unregister:
  assumes "registry_inv s" and "map_of (active_connections s) cid = Some r"
  shows "registry_inv (unregister cid (heap s ! r) s)"
proof -
  let ?s = "unregister cid (heap s ! r) s"
  have ok: "heap_ok s" and gi: "group_inv s" and ui: "user_inv s" and si: "scan_inv s"
    using assms(1) by (simp_all add: registry_inv_def)
  have "heap_ok ?s"
    using ok unfolding heap_ok_def by (auto simp: unregister_fields(1,2) split: if_splits)
  moreover have "group_inv ?s"
    using gi assms(2) unfolding group_inv_def
    by (auto simp: unregister_fields(1,2,5) split: if_splits)
  moreover have "user_inv ?s"
    using ui assms(2) unfolding user_inv_def
    by (fastforce simp: unregister_fields(1,2,3) truthy_Some split: if_splits)
  moreover have "scan_inv ?s"
    using si assms(2) unfolding scan_inv_def
    by (fastforce simp: unregister_fields(1,2,4) truthy_Some split: if_splits)
  ultimately show ?thesis by (simp add: registry_inv_def)
qed


lemma same_ref:
  assumes "heap_ok s" and "map_of (active_connections s) c = Some r'"
  shows "client_id (heap s ! r') = c"
  using assms unfolding heap_ok_def by blast

lemma subscribe_group_active:
  "active_connections (subscribe_group r g s) = active_connections s"
  by (simp add: subscribe_group_def Let_def)

lemma subscribe_group_users:
  "user_connections (subscribe_group r g s) = user_connections s"
  by (simp add: subscribe_group_def Let_def)

lemma subscribe_group_scans:
  "scan_connections (subscribe_group r g s) = scan_connections s"
  by (simp add: subscribe_group_def Let_def)

lemma subscribe_group_length:
  "length (heap (subscribe_group r g s)) = length (heap s)"
  by (simp add: subscribe_group_def Let_def)

lemma subscribe_group_other:
  "r' \<noteq> r \<Longrightarrow> heap (subscribe_group r g s) ! r' = heap s ! r'"
  by (simp add: subscribe_group_def Let_def)

lemma subscribe_group_client_id:
  "r < length (heap s) \<Longrightarrow>
     client_id (heap (subscribe_group r g s) ! r') = client_id (heap s ! r')"
  by (cases "r' = r") (simp_all add: subscribe_group_def Let_def)

lemma subscribe_group_user_id:
  "r < length (heap s) \<Longrightarrow>
     user_id (heap (subscribe_group r g s) ! r') = user_id (heap s ! r')"
  by (cases "r' = r") (simp_all add: subscribe_group_def Let_def)

lemma subscribe_group_scan_id:
  "r < length (heap s) \<Longrightarrow>
     scan_id (heap (subscribe_group r g s) ! r') = scan_id (heap s ! r')"
  by (cases "r' = r") (simp_all add: subscribe_group_def Let_def)

lemma subscribe_group_groups:
  "r < length (heap s) \<Longrightarrow>
     set (groups (heap (subscribe_group r g s) ! r)) = insert g (set (groups (heap s ! r)))"
  by (auto simp: subscribe_group_def Let_def set_add_def)

lemma subscribe_group_members:
  "members (group_connections (subscribe_group r g s)) g' =
     (if g' = g \<and> g \<notin> set (groups (heap s ! r))
      then insert (client_id (heap s ! r)) (members (group_connections s) g')
      else members (group_connections s) g')"
  by (simp add: subscribe_group_def Let_def members_index_add)

lemmas subscribe_group_fields =
  subscribe_group_active subscribe_group_users subscribe_group_scans subscribe_group_length
  subscribe_group_client_id subscribe_group_user_id subscribe_group_scan_id
lemma unsubscribe_group_active:
  "active_connections (unsubscribe_group r g s) = active_connections s"
  by (simp add: unsubscribe_group_def Let_def)

lemma unsubscribe_group_users:
  "user_connections (unsubscribe_group r g s) = user_connections s"
  by (simp add: unsubscribe_group_def Let_def)

lemma unsubscribe_group_scans:
  "scan_connections (unsubscribe_group r g s) = scan_connections s"
  by (simp add: unsubscribe_group_def Let_def)

lemma unsubscribe_group_length:
  "length (heap (unsubscribe_group r g s)) = length (heap s)"
  by (simp add: unsubscribe_group_def Let_def)

lemma unsubscribe_group_other:
  "r' \<noteq> r \<Longrightarrow> heap (unsubscribe_group r g s) ! r' = heap s ! r'"
  by (simp add: unsubscribe_group_def Let_def)

lemma unsubscribe_group_client_id:
  "r < length (heap s) \<Longrightarrow>
     client_id (heap (unsubscribe_group r g s) ! r') = client_id (heap s ! r')"
  by (cases "r' = r") (simp_all add: unsubscribe_group_def Let_def)

lemma unsubscribe_group_user_id:
  "r < length (heap s) \<Longrightarrow>
     user_id (heap (unsubscribe_group r g s) ! r') = user_id (heap s ! r')"
  by (cases "r' = r") (simp_all add: unsubscribe_group_def Let_def)

lemma unsubscribe_group_scan_id:
  "r < length (heap s) \<Longrightarrow>
     scan_id (heap (unsubscribe_group r g s) ! r') = scan_id (heap s ! r')"
  by (cases "r' = r") (simp_all add: unsubscribe_group_def Let_def)

lemma unsubscribe_group_groups:
  "r < length (heap s) \<Longrightarrow>
     set (groups (heap (unsubscribe_group r g s) ! r)) = set (groups (heap s ! r)) - {g}"
  by (auto simp: unsubscribe_group_def Let_def set_discard_def)

lemma unsubscribe_group_members:
  "members (group_connections (unsubscribe_group r g s)) g' =
     (if g' = g \<and> g \<in> set (groups (heap s ! r))
      then members (group_connections s) g' - {client_id (heap s ! r)}
      else members (group_connections s) g')"
  by (simp add: unsubscribe_group_def Let_def members_index_discard)

lemmas unsubscribe_group_fields =
  unsubscribe_group_active unsubscribe_group_users unsubscribe_group_scans unsubscribe_group_length
  unsubscribe_group_client_id unsubscribe_group_user_id unsubscribe_group_scan_id

lemma inv_subscribe_group:
  assumes "registry_inv s" and "registered r s"
  shows "registry_inv (subscribe_group r g s) \<and> registered r (subscribe_group r g s)"
proof -
  let ?s = "subscribe_group r g s"
  let ?cid = "client_id (heap s ! r)"
  have lt: "r < length (heap s)" and reg: "map_of (active_connections s) ?cid = Some r"
    using assms(2) by (simp_all add: registered_def)
  note f = subscribe_group_fields
  have ok: "heap_ok s" and gi: "group_inv s" and ui: "user_inv s" and si: "scan_inv s"
    using assms(1) by (simp_all add: registry_inv_def)
  have "heap_ok ?s"
    using ok lt unfolding heap_ok_def by (simp add: f)
  moreover have "group_inv ?s"
    unfolding group_inv_def
  proof (intro allI)
    fix c g'
    show "c \<in> members (group_connections ?s) g' \<longleftrightarrow>
          (\<exists>r'. map_of (active_connections ?s) c = Some r' \<and> g' \<in> set (groups (heap ?s ! r')))"
    proof (cases "c = ?cid")
      case True
      have a: "(\<exists>r'. map_of (active_connections ?s) c = Some r' \<and> g' \<in> set (groups (heap ?s ! r')))
                 \<longleftrightarrow> g' \<in> set (groups (heap ?s ! r))"
        using reg True by (simp add: f)
      have b: "c \<in> members (group_connections s) g' \<longleftrightarrow> g' \<in> set (groups (heap s ! r))"
        using gi reg True by (simp add: group_inv_def)
      show ?thesis
        unfolding a subscribe_group_members subscribe_group_groups [OF lt]
        using b True by auto
    next
      case False
      have "\<And>r'. map_of (active_connections s) c = Some r' \<Longrightarrow> r' \<noteq> r"
        using same_ref [OF ok] False by blast
      then have a: "(\<exists>r'. map_of (active_connections ?s) c = Some r' \<and> g' \<in> set (groups (heap ?s ! r')))
            \<longleftrightarrow> (\<exists>r'. map_of (active_connections s) c = Some r' \<and> g' \<in> set (groups (heap s ! r')))"
        using subscribe_group_other [of _ r g s] by (auto simp: f)
      have b: "c \<in> members (group_connections s) g' \<longleftrightarrow>
               (\<exists>r'. map_of (active_connections s) c = Some r' \<and> g' \<in> set (groups (heap s ! r')))"
        using gi by (simp add: group_inv_def)
      show ?thesis
        unfolding a subscribe_group_members using b False by auto
    qed
  qed
  moreover have "user_inv ?s"
    using ui lt unfolding user_inv_def by (simp add: f)
  moreover have "scan_inv ?s"
    using si lt unfolding scan_inv_def by (simp add: f)
  moreover have "registered r ?s"
    using lt reg by (simp add: registered_def f)
  ultimately show ?thesis by (simp add: registry_inv_def)
qed

lemma inv_unsubscribe_group:
  assumes "registry_inv s" and "registered r s"
  shows "registry_inv (unsubscribe_group r g s) \<and> registered r (unsubscribe_group r g s)"
proof -
  let ?s = "unsubscribe_group r g s"
  let ?cid = "client_id (heap s ! r)"
  have lt: "r < length (heap s)" and reg: "map_of (active_connections s) ?cid = Some r"
    using assms(2) by (simp_all add: registered_def)
  note f = unsubscribe_group_fields
  have ok: "heap_ok s" and gi: "group_inv s" and ui: "user_inv s" and si: "scan_inv s"
    using assms(1) by (simp_all add: registry_inv_def)
  have "heap_ok ?s"
    using ok lt unfolding heap_ok_def by (simp add: f)
  moreover have "group_inv ?s"
    unfolding group_inv_def
  proof (intro allI)
    fix c g'
    show "c \<in> members (group_connections ?s) g' \<longleftrightarrow>
          (\<exists>r'. map_of (active_connections ?s) c = Some r' \<and> g' \<in> set (groups (heap ?s ! r')))"
    proof (cases "c = ?cid")
      case True
      have a: "(\<exists>r'. map_of (active_connections ?s) c = Some r' \<and> g' \<in> set (groups (heap ?s ! r')))
                 \<longleftrightarrow> g' \<in> set (groups (heap ?s ! r))"
        using reg True by (simp add: f)
      have b: "c \<in> members (group_connections s) g' \<longleftrightarrow> g' \<in> set (groups (heap s ! r))"
        using gi reg True by (simp add: group_inv_def)
      show ?thesis
        unfolding a unsubscribe_group_members unsubscribe_group_groups [OF lt]
        using b True by auto
    next
      case False
      have "\<And>r'. map_of (active_connections s) c = Some r' \<Longrightarrow> r' \<noteq> r"
        using same_ref [OF ok] False by blast
      then have a: "(\<exists>r'. map_of (active_connections ?s) c = Some r' \<and> g' \<in> set (groups (heap ?s ! r')))
            \<longleftrightarrow> (\<exists>r'. map_of (active_connections s) c = Some r' \<and> g' \<in> set (groups (heap s ! r')))"
        using unsubscribe_group_other [of _ r g s] by (auto simp: f)
      have b: "c \<in> members (group_connections s) g' \<longleftrightarrow>
               (\<exists>r'. map_of (active_connections s) c = Some r' \<and> g' \<in> set (groups (heap s ! r')))"
        using gi by (simp add: group_inv_def)
      show ?thesis
        unfolding a unsubscribe_group_members using b False by auto
    qed
  qed
  moreover have "user_inv ?s"
    using ui lt unfolding user_inv_def by (simp add: f)
  moreover have "scan_inv ?s"
    using si lt unfolding scan_inv_def by (simp add: f)
  moreover have "registered r ?s"
    using lt reg by (simp add: registered_def f)
  ultimately show ?thesis by (simp add: registry_inv_def)
qed

lemma inv_subscribe:
  "registry_inv s \<Longrightarrow> registered r s \<Longrightarrow> registry_inv (subscribe r gs s)"
  unfolding subscribe_def
proof (induction gs arbitrary: s)
  case Nil
  then show ?case by simp
next
  case (Cons g gs)
  have "registry_inv (subscribe_group r g s) \<and> registered r (subscribe_group r g s)"
    by (rule inv_subscribe_group [OF Cons.prems])
  then show ?case using Cons.IH by simp
qed

lemma inv_unsubscribe:
  "registry_inv s \<Longrightarrow> registered r s \<Longrightarrow> registry_inv (unsubscribe r gs s)"
  unfolding unsubscribe_def
proof (induction gs arbitrary: s)
  case Nil
  then show ?case by simp
next
  case (Cons g gs)
  have "registry_inv (unsubscribe_group r g s) \<and> registered r (unsubscribe_group r g s)"
    by (rule inv_unsubscribe_group [OF Cons.prems])
  then show ?case using Cons.IH by simp
qed

lemma inv_step: "registry_inv s \<Longrightarrow> admissible x s \<Longrightarrow> registry_inv (step tr x s)"
proof (cases x)
  case (Connect ws cid uid ct sid gs)
  assume "registry_inv s" "admissible x s"
  then show ?thesis using Connect
    by (auto simp: inv_register dest!: connect_state split: sum.splits)
next
  case (Disconnect cid)
  assume "registry_inv s" "admissible x s"
  then show ?thesis using Disconnect
    by (auto simp: disconnect_state inv_unregister split: option.splits)
next
  case (Subscribe r gs)
  assume "registry_inv s" "admissible x s"
  then show ?thesis using Subscribe by (simp add: inv_subscribe registered_def)
next
  case (Unsubscribe r gs)
  assume "registry_inv s" "admissible x s"
  then show ?thesis using Unsubscribe by (simp add: inv_unsubscribe registered_def)
qed

lemma inv_run: "registry_inv s \<Longrightarrow> admissible_run tr ops s \<Longrightarrow> registry_inv (run tr ops s)"
  unfolding run_def by (induction ops arbitrary: s) (auto simp: inv_step)

lemma inv_fresh: "registry_inv fresh"
  by (simp add: registry_inv_def heap_ok_def group_inv_def user_inv_def scan_inv_def
                fresh_def members_def)

lemma dup_value: "dup =
  \<lparr>heap =
    [\<lparr>websocket = 1, client_id = ''a'', user_id = Some ''u1'', connection_type = None,
        scan_id = None, groups = [''public'']\<rparr>,
     \<lparr>websocket = 2, client_id = ''a'', user_id = None, connection_type = None,
        scan_id = None, groups = []\<rparr>],
   active_connections = [(''a'', 1)],
   user_connections = [(''u1'', [''a''])],
   scan_connections = [],
   group_connections = [(''public'', [''a''])]\<rparr>"
  by code_simp

lemma session_value: "run all_up session fresh =
  \<lparr>heap =
    [\<lparr>websocket = 1, client_id = ''a'', user_id = Some ''u1'',
        connection_type = Some USER, scan_id = None,
        groups = [''public'', ''alerts'']\<rparr>,
     \<lparr>websocket = 2, client_id = ''b'', user_id = Some ''u1'',
        connection_type = Some USER, scan_id = Some ''s1'', groups = []\<rparr>],
    active_connections = [(''a'', 0)],
    user_connections = [(''u1'', [''a''])], scan_connections = [],
    group_connections = [(''public'', [''a'']), (''alerts'', [''a''])]\<rparr>"
  by code_simp

lemma session_admissible: "admissible_run all_up session fresh"
  by code_simp

lemma session_members:
  "''a'' \<in> members (group_connections (run all_up session fresh)) ''alerts''"
  "''a'' \<in> members (user_connections (run all_up session fresh)) ''u1''"
  by (simp_all add: session_value members_def)

text \<open>
  Claim C1, as stated, fails: \<open>connect\<close> with an id that is already registered replaces
  the primary-map entry and leaves the index entries of the replaced client behind. After
  connecting \<open>a\<close> as user \<open>u1\<close> in group \<open>public\<close> and connecting \<open>a\<close> again with no
  user and no groups, \<open>a\<close> is listed under \<open>public\<close> and under \<open>u1\<close>, while the client
  registered as \<open>a\<close> holds no group and no user id.
\<close>

theorem duplicate_id_breaks_invariant:
  "''a'' \<in> members (group_connections dup) ''public''
   \<and> ''a'' \<in> members (user_connections dup) ''u1''
   \<and> map_of (active_connections dup) ''a'' = Some 1
   \<and> groups (heap dup ! 1) = []
   \<and> user_id (heap dup ! 1) = None"
  by (simp add: dup_value members_def)

text \<open>
  Claim C1, amended. Starting from a fresh manager, after every finite sequence of connect,
  disconnect, subscribe and unsubscribe operations in which connect is never called with an
  id that is currently registered and frames are handled for clients that are currently
  registered: an id is listed under a group exactly when the client registered under that id
  holds the group, and every id listed under a user (a scan) is registered with a client
  whose \<open>user_id\<close> (\<open>scan_id\<close>) is that user (scan).
\<close>

theorem registry_invariant_unique_ids:
  assumes "admissible_run tr ops fresh" and "s = run tr ops fresh"
  shows "(cid \<in> members (group_connections s) g
            \<longleftrightarrow> (\<exists>r. map_of (active_connections s) cid = Some r \<and> r < length (heap s)
                      \<and> client_id (heap s ! r) = cid \<and> g \<in> set (groups (heap s ! r))))
       \<and> (cid \<in> members (user_connections s) u
            \<longrightarrow> (\<exists>r. map_of (active_connections s) cid = Some r \<and> r < length (heap s)
                      \<and> client_id (heap s ! r) = cid \<and> user_id (heap s ! r) = Some u))
       \<and> (cid \<in> members (scan_connections s) k
            \<longrightarrow> (\<exists>r. map_of (active_connections s) cid = Some r \<and> r < length (heap s)
                      \<and> client_id (heap s ! r) = cid \<and> scan_id (heap s ! r) = Some k))"
proof -
  have "registry_inv s"
    using assms inv_run [OF inv_fresh] by simp
  then show ?thesis
    unfolding registry_inv_def heap_ok_def group_inv_def user_inv_def scan_inv_def
    by blast
qed



theorem registry_invariant_unique_ids_witness:
  "admissible_run all_up session fresh
   \<and> ''a'' \<in> members (group_connections (run all_up session fresh)) ''alerts''
   \<and> (''a'' \<in> members (group_connections (run all_up session fresh)) ''alerts''
        \<longleftrightarrow> (\<exists>r. map_of (active_connections (run all_up session fresh)) ''a'' = Some r
                  \<and> r < length (heap (run all_up session fresh))
                  \<and> client_id (heap (run all_up session fresh) ! r) = ''a''
                  \<and> ''alerts'' \<in> set (groups (heap (run all_up session fresh) ! r))))"
proof (intro conjI)
  show "admissible_run all_up session fresh"
    by (rule session_admissible)
  show "''a'' \<in> members (group_connections (run all_up session fresh)) ''alerts''"
    by (rule session_members(1))
  show "''a'' \<in> members (group_connections (run all_up session fresh)) ''alerts''
        \<longleftrightarrow> (\<exists>r. map_of (active_connections (run all_up session fresh)) ''a'' = Some r
                  \<and> r < length (heap (run all_up session fresh))
                  \<and> client_id (heap (run all_up session fresh) ! r) = ''a''
                  \<and> ''alerts'' \<in> set (groups (heap (run all_up session fresh) ! r)))"
    by (rule conjunct1 [OF registry_invariant_unique_ids [OF session_admissible refl]])
qed

section \<open>connect with an id that is already registered\<close>

lemma one_value: "one =
  \<lparr>heap =
    [\<lparr>websocket = 1, client_id = ''a'', user_id = Some ''u1'', connection_type = None,
        scan_id = None, groups = [''public'']\<rparr>],
   active_connections = [(''a'', 0)],
   user_connections = [(''u1'', [''a''])],
   scan_connections = [],
   group_connections = [(''public'', [''a''])]\<rparr>"
  by code_simp

text \<open>
  Claim C3, as stated, fails: \<open>connect\<close> has no check for an id that is already a key of
  \<open>active_connections\<close>. With \<open>a\<close> registered, a second \<open>connect\<close> for \<open>a\<close> returns
  the new client and no error; the primary map now holds the new client under \<open>a\<close>, and
  the index entries written for the first client are still there.
\<close>

theorem connect_registered_id_accepted:
  "map_of (active_connections one) ''a'' = Some 0
   \<and> connect all_up 2 ''a'' None None None None one =
       Inr (1, dup, [\<lparr>target = 2,
                      payload = \<lparr>n_type = CONNECTED, n_data = [(''client_id'', ''a'')]\<rparr>,
                      delivered = True\<rparr>])
   \<and> map_of (active_connections dup) ''a'' = Some 1
   \<and> user_connections dup = [(''u1'', [''a''])]
   \<and> group_connections dup = [(''public'', [''a''])]"
  by code_simp

lemma reconnect_value:
  "connect all_up 2 ''a'' (Some ''u2'') (Some ADMIN) (Some ''s1'') (Some [''alerts'']) one =
     Inr (1,
          \<lparr>heap =
             [\<lparr>websocket = 1, client_id = ''a'', user_id = Some ''u1'', connection_type = None,
                 scan_id = None, groups = [''public'']\<rparr>,
              \<lparr>websocket = 2, client_id = ''a'', user_id = Some ''u2'',
                 connection_type = Some ADMIN, scan_id = Some ''s1'', groups = [''alerts'']\<rparr>],
            active_connections = [(''a'', 1)],
            user_connections = [(''u1'', [''a'']), (''u2'', [''a''])],
            scan_connections = [(''s1'', [''a''])],
            group_connections = [(''public'', [''a'']), (''alerts'', [''a''])]\<rparr>,
          [\<lparr>target = 2,
             payload = \<lparr>n_type = CONNECTED, n_data = [(''client_id'', ''a'')]\<rparr>,
             delivered = True\<rparr>])"
  by code_simp

text \<open>
  Claim C3, amended. When the handshake succeeds and \<open>client_id\<close> is already a key of the
  primary map, \<open>connect\<close> reports no error: it returns the new client, stores it under
  \<open>client_id\<close> in place of the old one and leaves the entries of all other ids alone. It
  adds the id to the index entry of the new client's user id, of its scan id and of each of
  its groups, and changes the indexes in no other way: nothing is removed from
  \<open>user_connections\<close>, \<open>scan_connections\<close> or \<open>group_connections\<close>.
\<close>

theorem connect_registered_id_overwrites:
  assumes "accepts tr ws" and "map_of (active_connections s) cid = Some r0"
  shows "case connect tr ws cid uid ct sid gs s of
           Inl e \<Rightarrow> False
         | Inr (r, s', l) \<Rightarrow>
             r = length (heap s)
           \<and> map_of (active_connections s') cid = Some r
           \<and> heap s' ! r = new_client ws cid uid ct sid gs
           \<and> (c \<noteq> cid \<longrightarrow> map_of (active_connections s') c = map_of (active_connections s) c)
           \<and> members (user_connections s') u =
               (if truthy uid \<and> u = the uid then insert cid (members (user_connections s) u)
                else members (user_connections s) u)
           \<and> members (scan_connections s') k =
               (if truthy sid \<and> k = the sid then insert cid (members (scan_connections s) k)
                else members (scan_connections s) k)
           \<and> members (group_connections s') g =
               (if g \<in> set (set_of_list gs) then insert cid (members (group_connections s) g)
                else members (group_connections s) g)"
  using assms(1)
  by (simp add: connect_def Let_def register_fields new_client_def)

theorem connect_registered_id_overwrites_witness:
  "accepts all_up 2 \<and> map_of (active_connections one) ''a'' = Some 0
   \<and> members (user_connections one) ''u2'' = {}
   \<and> members (scan_connections one) ''s1'' = {}
   \<and> members (group_connections one) ''alerts'' = {}
   \<and> (case connect all_up 2 ''a'' (Some ''u2'') (Some ADMIN) (Some ''s1'') (Some [''alerts'']) one of
           Inl e \<Rightarrow> False
         | Inr (r, s', l) \<Rightarrow>
             r = length (heap one)
           \<and> map_of (active_connections s') ''a'' = Some r
           \<and> heap s' ! r = new_client 2 ''a'' (Some ''u2'') (Some ADMIN) (Some ''s1'') (Some [''alerts''])
           \<and> (''b'' \<noteq> ''a'' \<longrightarrow> map_of (active_connections s') ''b'' = map_of (active_connections one) ''b'')
           \<and> members (user_connections s') ''u2'' =
               (if truthy (Some ''u2'') \<and> ''u2'' = the (Some ''u2'')
                then insert ''a'' (members (user_connections one) ''u2'')
                else members (user_connections one) ''u2'')
           \<and> members (scan_connections s') ''s1'' =
               (if truthy (Some ''s1'') \<and> ''s1'' = the (Some ''s1'')
                then insert ''a'' (members (scan_connections one) ''s1'')
                else members (scan_connections one) ''s1'')
           \<and> members (group_connections s') ''alerts'' =
               (if ''alerts'' \<in> set (set_of_list (Some [''alerts'']))
                then insert ''a'' (members (group_connections one) ''alerts'')
                else members (group_connections one) ''alerts''))
   \<and> (case connect all_up 2 ''a'' (Some ''u2'') (Some ADMIN) (Some ''s1'') (Some [''alerts'']) one of
           Inl e \<Rightarrow> False
         | Inr (r, s', l) \<Rightarrow>
             members (user_connections s') ''u2'' = {''a''}
           \<and> members (scan_connections s') ''s1'' = {''a''}
           \<and> members (group_connections s') ''alerts'' = {''a''}
           \<and> members (user_connections s') ''u1'' = {''a''}
           \<and> members (group_connections s') ''public'' = {''a''})"
proof -
  have h1: "accepts all_up 2" by (simp add: all_up_def)
  have h2: "map_of (active_connections one) ''a'' = Some 0" by (simp add: one_value)
  have e: "members (user_connections one) ''u2'' = {}"
    "members (scan_connections one) ''s1'' = {}"
    "members (group_connections one) ''alerts'' = {}"
    by (simp_all add: one_value members_def)
  have v: "case connect all_up 2 ''a'' (Some ''u2'') (Some ADMIN) (Some ''s1'') (Some [''alerts'']) one of
           Inl e \<Rightarrow> False
         | Inr (r, s', l) \<Rightarrow>
             members (user_connections s') ''u2'' = {''a''}
           \<and> members (scan_connections s') ''s1'' = {''a''}
           \<and> members (group_connections s') ''alerts'' = {''a''}
           \<and> members (user_connections s') ''u1'' = {''a''}
           \<and> members (group_connections s') ''public'' = {''a''}"
    by (simp add: reconnect_value members_def)
  show ?thesis
    by (intro conjI h1 h2 e v) (rule connect_registered_id_overwrites [OF h1 h2])
qed

section \<open>The shape of dispatch results\<close>

lemma send_each_results:
  "fst (send_each tr s n cids (res, log)) = res @ map (\<lambda>cid. fst (send_to_client tr s cid n)) cids"
  by (induction cids arbitrary: res log) (auto simp: Let_def split: prod.splits)

lemma broadcast_all_keys:
  "fst ` set (fst (broadcast tr s n None None)) = fst ` set (active_connections s)"
  by (auto simp: broadcast_def excluded_def broadcast_loop_keys targeted_def map_of_eq_None_iff)

text \<open>
  Claim C4, as stated, fails: for the user, group and scan modes the notify route returns
  what \<open>send_to_user\<close>, \<open>send_to_group\<close> and \<open>send_to_scan\<close> return, a bare list of
  booleans without connection ids.
\<close>

theorem user_dispatch_returns_list:
  "send_notification (down 2) abc ''user'' (Some ''u1'') alert = Inr (ResultList [False], 1)"
  by code_simp

text \<open>
  Claim C4, amended. The broadcast mode returns a dictionary from client id to boolean with
  one key per registered connection, and the single-client mode returns the one-entry
  dictionary of that client id. The user, group and scan modes return a list holding one
  boolean per client id stored under the user, group or scan, in the iteration order of
  that index entry and without the ids.
\<close>

theorem dispatch_result_shape:
  assumes "truthy tid"
  shows "send_notification tr s ''broadcast'' t n =
           Inr (ResultDict (fst (broadcast tr s n None None)),
                length (fst (broadcast tr s n None None)))
       \<and> fst ` set (fst (broadcast tr s n None None)) = fst ` set (active_connections s)
       \<and> send_notification tr s ''client'' tid n =
           Inr (ResultDict [(the tid, fst (send_to_client tr s (the tid) n))],
                if fst (send_to_client tr s (the tid) n) then 1 else 0)
       \<and> send_notification tr s ''user'' tid n =
           Inr (ResultList (map (\<lambda>cid. fst (send_to_client tr s cid n))
                               (id_list (user_connections s) (the tid))),
                length (id_list (user_connections s) (the tid)))
       \<and> send_notification tr s ''group'' tid n =
           Inr (ResultList (map (\<lambda>cid. fst (send_to_client tr s cid n))
                               (id_list (group_connections s) (the tid))),
                length (id_list (group_connections s) (the tid)))
       \<and> send_notification tr s ''scan'' tid n =
           Inr (ResultList (map (\<lambda>cid. fst (send_to_client tr s cid n))
                               (id_list (scan_connections s) (the tid))),
                length (id_list (scan_connections s) (the tid)))"
proof (intro conjI)
  show "send_notification tr s ''broadcast'' t n =
           Inr (ResultDict (fst (broadcast tr s n None None)),
                length (fst (broadcast tr s n None None)))"
    by (simp add: send_notification_def Let_def)
  show "fst ` set (fst (broadcast tr s n None None)) = fst ` set (active_connections s)"
    by (rule broadcast_all_keys)
  show "send_notification tr s ''client'' tid n =
           Inr (ResultDict [(the tid, fst (send_to_client tr s (the tid) n))],
                if fst (send_to_client tr s (the tid) n) then 1 else 0)"
    using assms by (simp add: send_notification_def Let_def)
  show "send_notification tr s ''user'' tid n =
           Inr (ResultList (map (\<lambda>cid. fst (send_to_client tr s cid n))
                               (id_list (user_connections s) (the tid))),
                length (id_list (user_connections s) (the tid)))"
    using assms by (simp add: send_notification_def Let_def send_to_user_def send_each_results)
  show "send_notification tr s ''group'' tid n =
           Inr (ResultList (map (\<lambda>cid. fst (send_to_client tr s cid n))
                               (id_list (group_connections s) (the tid))),
                length (id_list (group_connections s) (the tid)))"
    using assms by (simp add: send_notification_def Let_def send_to_group_def send_each_results)
  show "send_notification tr s ''scan'' tid n =
           Inr (ResultList (map (\<lambda>cid. fst (send_to_client tr s cid n))
                               (id_list (scan_connections s) (the tid))),
                length (id_list (scan_connections s) (the tid)))"
    using assms by (simp add: send_notification_def Let_def send_to_scan_def send_each_results)
qed

theorem dispatch_result_shape_witness:
  "truthy (Some ''u1'')
   \<and> send_notification (down 2) abc ''user'' (Some ''u1'') alert =
       Inr (ResultList (map (\<lambda>cid. fst (send_to_client (down 2) abc cid alert))
                           (id_list (user_connections abc) (the (Some ''u1'')))),
            length (id_list (user_connections abc) (the (Some ''u1''))))"
proof -
  have h: "truthy (Some ''u1'')" by (simp add: truthy_def)
  show ?thesis
    by (intro conjI h)
       (rule conjunct1 [OF conjunct2 [OF conjunct2 [OF conjunct2 [OF dispatch_result_shape [OF h]]]]])
qed

section \<open>Group updates by the route handler\<close>

lemma gone_value: "gone =
  \<lparr>heap =
    [\<lparr>websocket = 1, client_id = ''a'', user_id = None, connection_type = None,
        scan_id = None, groups = []\<rparr>,
     \<lparr>websocket = 2, client_id = ''a'', user_id = None, connection_type = None,
        scan_id = None, groups = []\<rparr>],
   active_connections = [], user_connections = [], scan_connections = [],
   group_connections = []\<rparr>"
  by code_simp

text \<open>
  Claim C7, as stated, fails: the handler never looks the client up before it updates the
  groups, and no \<open>NotFound\<close> exists in the code. After \<open>a\<close> was connected twice and
  disconnected once, \<open>a\<close> is not a key of the primary map; a subscribe frame handled for
  the first client object still adds the group to the object and \<open>a\<close> to
  \<open>group_connections\<close>.
\<close>

theorem subscribe_unregistered_client_succeeds:
  "map_of (active_connections gone) ''a'' = None
   \<and> client_id (heap gone ! 0) = ''a''
   \<and> group_connections (subscribe 0 [''g''] gone) = [(''g'', [''a''])]
   \<and> groups (heap (subscribe 0 [''g''] gone) ! 0) = [''g'']
   \<and> active_connections (subscribe 0 [''g''] gone) = []"
  by code_simp

lemma subscribe_groups_set:
  "r < length (heap s) \<Longrightarrow>
     set (groups (heap (subscribe r gs s) ! r)) = set (groups (heap s ! r)) \<union> set gs"
  unfolding subscribe_def
proof (induction gs arbitrary: s)
  case Nil
  then show ?case by simp
next
  case (Cons g gs)
  have "r < length (heap (subscribe_group r g s))"
    using Cons.prems by (simp add: subscribe_group_length)
  from Cons.IH [OF this] show ?case
    using Cons.prems by (simp add: subscribe_group_groups)
qed

lemma subscribe_members:
  "r < length (heap s) \<Longrightarrow>
     members (group_connections (subscribe r gs s)) g =
       (if g \<in> set gs \<and> g \<notin> set (groups (heap s ! r))
        then insert (client_id (heap s ! r)) (members (group_connections s) g)
        else members (group_connections s) g)"
  unfolding subscribe_def
proof (induction gs arbitrary: s)
  case Nil
  then show ?case by simp
next
  case (Cons g' gs)
  have lt: "r < length (heap (subscribe_group r g' s))"
    using Cons.prems by (simp add: subscribe_group_length)
  show ?case
    using Cons.IH [OF lt] Cons.prems
    by (auto simp: subscribe_group_groups subscribe_group_members subscribe_group_client_id)
qed

lemma subscribe_frame:
  "active_connections (subscribe r gs s) = active_connections s
   \<and> user_connections (subscribe r gs s) = user_connections s
   \<and> scan_connections (subscribe r gs s) = scan_connections s"
  unfolding subscribe_def
  by (induction gs arbitrary: s)
     (simp_all add: subscribe_group_active subscribe_group_users subscribe_group_scans)

lemma unsubscribe_groups_set:
  "r < length (heap s) \<Longrightarrow>
     set (groups (heap (unsubscribe r gs s) ! r)) = set (groups (heap s ! r)) - set gs"
  unfolding unsubscribe_def
proof (induction gs arbitrary: s)
  case Nil
  then show ?case by simp
next
  case (Cons g gs)
  have "r < length (heap (unsubscribe_group r g s))"
    using Cons.prems by (simp add: unsubscribe_group_length)
  from Cons.IH [OF this] show ?case
    using Cons.prems by (auto simp: unsubscribe_group_groups)
qed

lemma unsubscribe_members:
  "r < length (heap s) \<Longrightarrow>
     members (group_connections (unsubscribe r gs s)) g =
       (if g \<in> set gs \<and> g \<in> set (groups (heap s ! r))
        then members (group_connections s) g - {client_id (heap s ! r)}
        else members (group_connections s) g)"
  unfolding unsubscribe_def
proof (induction gs arbitrary: s)
  case Nil
  then show ?case by simp
next
  case (Cons g' gs)
  have lt: "r < length (heap (unsubscribe_group r g' s))"
    using Cons.prems by (simp add: unsubscribe_group_length)
  show ?case
    using Cons.IH [OF lt] Cons.prems
    by (auto simp: unsubscribe_group_groups unsubscribe_group_members unsubscribe_group_client_id)
qed

lemma unsubscribe_frame:
  "active_connections (unsubscribe r gs s) = active_connections s
   \<and> user_connections (unsubscribe r gs s) = user_connections s
   \<and> scan_connections (unsubscribe r gs s) = scan_connections s"
  unfolding unsubscribe_def
  by (induction gs arbitrary: s)
     (simp_all add: unsubscribe_group_active unsubscribe_group_users unsubscribe_group_scans)

text \<open>
  Claim C7, amended. A subscribe or unsubscribe frame never fails, whether or not the
  handler's client is in the primary map. Subscribe adds every requested group to
  \<open>client.groups\<close> and, for each requested group the client did not hold, the client's id
  to \<open>group_connections\<close> of that group; unsubscribe removes the requested groups from
  \<open>client.groups\<close> and, for each requested group the client held, the id from
  \<open>group_connections\<close> of that group. Both writes of one group happen in the same step of
  the handler, and no other index and no primary-map entry is touched.
\<close>

theorem group_update_joint:
  assumes "r < length (heap s)"
  shows "set (groups (heap (subscribe r gs s) ! r)) = set (groups (heap s ! r)) \<union> set gs
       \<and> members (group_connections (subscribe r gs s)) g =
           (if g \<in> set gs \<and> g \<notin> set (groups (heap s ! r))
            then insert (client_id (heap s ! r)) (members (group_connections s) g)
            else members (group_connections s) g)
       \<and> active_connections (subscribe r gs s) = active_connections s
       \<and> user_connections (subscribe r gs s) = user_connections s
       \<and> scan_connections (subscribe r gs s) = scan_connections s
       \<and> set (groups (heap (unsubscribe r gs s) ! r)) = set (groups (heap s ! r)) - set gs
       \<and> members (group_connections (unsubscribe r gs s)) g =
           (if g \<in> set gs \<and> g \<in> set (groups (heap s ! r))
            then members (group_connections s) g - {client_id (heap s ! r)}
            else members (group_connections s) g)
       \<and> active_connections (unsubscribe r gs s) = active_connections s
       \<and> user_connections (unsubscribe r gs s) = user_connections s
       \<and> scan_connections (unsubscribe r gs s) = scan_connections s"
  using subscribe_groups_set [OF assms] subscribe_members [OF assms] subscribe_frame
        unsubscribe_groups_set [OF assms] unsubscribe_members [OF assms] unsubscribe_frame
  by simp

theorem group_update_joint_witness:
  "0 < length (heap gone)
   \<and> set (groups (heap (subscribe 0 [''g''] gone) ! 0)) = set (groups (heap gone ! 0)) \<union> set [''g'']
   \<and> members (group_connections (subscribe 0 [''g''] gone)) ''g'' =
       (if ''g'' \<in> set [''g''] \<and> ''g'' \<notin> set (groups (heap gone ! 0))
        then insert (client_id (heap gone ! 0)) (members (group_connections gone) ''g'')
        else members (group_connections gone) ''g'')"
proof -
  have h: "0 < length (heap gone)" by (simp add: gone_value)
  show ?thesis
    by (intro conjI h)
       (rule conjunct1 [OF group_update_joint [OF h]],
        rule conjunct1 [OF conjunct2 [OF group_update_joint [OF h]]])
qed

section \<open>Failed sends\<close>

text \<open>
  Claim C8, as stated, fails: in websocket\_manager.py a failed write is reported as
  \<open>False\<close> and nothing else happens. After a failed \<open>send_to_client\<close> to \<open>B\<close>, and after
  a ping of \<open>B\<close> whose pong could not be written, \<open>B\<close> is still a key of the primary map
  and still listed under its user.
\<close>

theorem failed_send_leaves_client_registered:
  "send_to_client (down 2) abc ''B'' alert =
     (False, [\<lparr>target = 2, payload = alert, delivered = False\<rparr>])
   \<and> endpoint_frame (down 2) ''B'' PingFrame abc =
       (abc, [\<lparr>target = 2, payload = \<lparr>n_type = PONG, n_data = []\<rparr>, delivered = False\<rparr>])
   \<and> map_of (active_connections abc) ''B'' = Some 1
   \<and> members (user_connections abc) ''u1'' = {''B''}"
  by (simp add: abc_value send_to_client_def endpoint_frame_def send_json_def ws_send_json_def
                down_def members_def)

lemma remove1_absent: "cid \<notin> set clients \<Longrightarrow> remove1 cid clients = clients"
  by (simp add: remove1_idem)

text \<open>
  Claim C8, amended. When the transport write fails, \<open>send_json\<close> and \<open>send_to_client\<close>
  of websocket\_manager.py return \<open>False\<close> for that connection and raise nothing; they do
  not unregister it. \<open>send_message\<close> of services/notifications/websocket.py returns no
  result; on a failed write it removes that one client from \<open>active_connections\<close> and from
  every channel, leaves all other clients registered, and raises nothing.
\<close>

theorem failed_send_recorded:
  assumes "\<not> writes tr ws"
  shows "(websocket client = ws \<longrightarrow>
            send_json tr client n = (False, [\<lparr>target = ws, payload = n, delivered = False\<rparr>]))
       \<and> (map_of (active_connections s) cid = Some r \<and> websocket (heap s ! r) = ws \<longrightarrow>
            send_to_client tr s cid n = (False, [\<lparr>target = ws, payload = n, delivered = False\<rparr>]))
       \<and> (map_of (legacy_connections m) cid = Some ws \<longrightarrow>
            map_of (legacy_connections (fst (send_message tr cid n m))) cid = None
          \<and> (c \<noteq> cid \<longrightarrow> map_of (legacy_connections (fst (send_message tr cid n m))) c
                            = map_of (legacy_connections m) c)
          \<and> channels (fst (send_message tr cid n m)) =
              map (\<lambda>(channel, clients). (channel, remove1 cid clients)) (channels m))"
proof (intro conjI impI)
  assume "websocket client = ws"
  then show "send_json tr client n = (False, [\<lparr>target = ws, payload = n, delivered = False\<rparr>])"
    using assms by (simp add: send_json_def ws_send_json_def)
next
  assume "map_of (active_connections s) cid = Some r \<and> websocket (heap s ! r) = ws"
  then show "send_to_client tr s cid n = (False, [\<lparr>target = ws, payload = n, delivered = False\<rparr>])"
    using assms by (simp add: send_to_client_def send_json_def ws_send_json_def)
next
  assume a: "map_of (legacy_connections m) cid = Some ws"
  then have m': "fst (send_message tr cid n m) = legacy_disconnect cid m"
    using assms by (simp add: send_message_def ws_send_json_def)
  show "map_of (legacy_connections (fst (send_message tr cid n m))) cid = None"
    using a by (simp add: m' legacy_disconnect_def AList.delete_conv')
  show "channels (fst (send_message tr cid n m)) =
              map (\<lambda>(channel, clients). (channel, remove1 cid clients)) (channels m)"
    using a by (auto simp: m' legacy_disconnect_def remove1_absent)
  assume "c \<noteq> cid"
  then show "map_of (legacy_connections (fst (send_message tr cid n m))) c
                            = map_of (legacy_connections m) c"
    using a by (simp add: m' legacy_disconnect_def AList.delete_conv')
qed

lemma legacy_after_failed_send:
  "fst (send_message (down 7) ''x'' alert legacy) =
     \<lparr>legacy_connections = [(''y'', 8)],
      channels = [(''threats'', [''y'']), (''scan_1'', [''y''])]\<rparr>"
  by code_simp

theorem failed_send_recorded_witness:
  "\<not> writes (down 2) 2
   \<and> (map_of (active_connections abc) ''B'' = Some 1 \<and> websocket (heap abc ! 1) = 2)
   \<and> send_to_client (down 2) abc ''B'' alert =
       (False, [\<lparr>target = 2, payload = alert, delivered = False\<rparr>])
   \<and> \<not> writes (down 7) 7
   \<and> map_of (legacy_connections legacy) ''x'' = Some 7
   \<and> map_of (legacy_connections (fst (send_message (down 7) ''x'' alert legacy))) ''x'' = None"
proof -
  have h2: "\<not> writes (down 2) 2" by (simp add: down_def)
  have a2: "map_of (active_connections abc) ''B'' = Some 1 \<and> websocket (heap abc ! 1) = 2"
    by (simp add: abc_value)
  have h7: "\<not> writes (down 7) 7" by (simp add: down_def)
  have a7: "map_of (legacy_connections legacy) ''x'' = Some 7" by (simp add: legacy_def)
  show ?thesis
    by (intro conjI h2 a2 h7 a7)
       (rule mp [OF conjunct1 [OF conjunct2 [OF failed_send_recorded [OF h2]]] a2],
        rule conjunct1 [OF mp [OF conjunct2 [OF conjunct2 [OF failed_send_recorded [OF h7]]] a7]])
qed

section \<open>Malformed frames\<close>

text \<open>
  The loop of \<open>websocket_endpoint\<close>: a registered client that sends text which is not JSON
  and then a ping gets one \<open>error\<close> frame and one \<open>pong\<close> frame on its own WebSocket, and
  the registry is unchanged. In \<open>handle_client\<close> a malformed frame changes nothing and
  sends nothing.
\<close>

lemma handle_client_frame_malformed: "handle_client_frame tr r InvalidJson s = (s, [])"
  by (simp add: handle_client_frame_def)

lemma endpoint_malformed_then_ping:
  assumes "map_of (active_connections s) cid = Some r"
  shows "endpoint_loop tr cid [InvalidJson, PingFrame] s =
     (s, [\<lparr>target = websocket (heap s ! r),
           payload = \<lparr>n_type = ERROR, n_data = [(''message'', ''Invalid JSON format'')]\<rparr>,
           delivered = writes tr (websocket (heap s ! r))\<rparr>,
          \<lparr>target = websocket (heap s ! r), payload = \<lparr>n_type = PONG, n_data = []\<rparr>,
           delivered = writes tr (websocket (heap s ! r))\<rparr>])"
  using assms by (simp add: endpoint_frame_def send_to_client_def send_json_simps)

text \<open>
  Claim C9 against \<open>WebSocketManager.handle_client\<close>: client \<open>B\<close> sends a frame that is
  not JSON and then a ping. The loop keeps the client registered and answers the ping, but
  the only frame written is the \<open>pong\<close>: no \<open>error\<close> notification is sent for the
  malformed frame.
\<close>

theorem handle_client_malformed_frame_unanswered:
  "handle_client_loop all_up 1 [InvalidJson, PingFrame] abc =
     (abc, [\<lparr>target = 2, payload = \<lparr>n_type = PONG, n_data = []\<rparr>, delivered = True\<rparr>])"
  by (simp add: handle_client_frame_def send_json_def ws_send_json_def all_up_def abc_value)

end
